theory Spec2Isabelle
  imports Main "HOL-Library.Word"
begin

section \<open>Data model\<close>

text \<open>
  The middleware of \<^verbatim>\<open>otelchi\<close> wraps an HTTP handler. Everything it does to its
  collaborators (the metrics recorder, the tracer and its span, the downstream handler and the
  real response writer) is recorded as a list of events, in program order.
\<close>

type_synonym byte = "8 word"
type_synonym int64 = "64 word"

text \<open>A \<^verbatim>\<open>context.Context\<close>: the chain of values it carries.\<close>

type_synonym "context" = "(string \<times> string) list"

text \<open>The parts of \<^verbatim>\<open>*http.Request\<close> that \<^verbatim>\<open>ServeHTTP\<close> reads or replaces.\<close>

record request =
  reqMethod :: string
  reqURLPath :: string
  reqHeader :: "(string \<times> string) list"
  reqContext :: "context"

text \<open>
  An \<^verbatim>\<open>http.ResponseWriter\<close>: the server's own writer, or the writer that
  \<^verbatim>\<open>httpsnoop.Wrap\<close> builds around another one.
\<close>

datatype responseWriter = ResponseWriter nat | Wrap responseWriter

text \<open>
  What a handler does to the response writer it is given: it sets a response header
  (\<^verbatim>\<open>w.Header().Set\<close>), writes a piece of the body, or writes the status line.
\<close>

datatype call = HeaderSet string string | Write "byte list" | WriteHeader int

datatype outcome = Returns | Panics

text \<open>
  One execution of the downstream handler: its calls on the response writer in order, how it
  ends, and the pattern that \<^verbatim>\<open>chi.RouteContext(r.Context()).RoutePattern()\<close> yields once
  the router has run.
\<close>

record run =
  calls :: "call list"
  ending :: outcome
  routedPattern :: string

type_synonym handler = "request \<Rightarrow> run"

text \<open>
  \<^verbatim>\<open>httpReqProperties\<close>, the label set of the metrics. The struct is declared with the
  recorder; its fields are the ones \<^verbatim>\<open>ServeHTTP\<close> fills.
\<close>

record httpReqProperties =
  Service :: string
  ID :: string
  Method :: string
  Code :: int

record recordingResponseWriter =
  writer :: "responseWriter option"
  written :: bool
  writtenBytes :: int64
  status :: int

datatype code = Unset | Error | Ok

datatype attribute = HTTPRoute string | HTTPStatusCode int

datatype event =
    RecordRequestsInflight "context" httpReqProperties int
  | RecordRequestDuration "context" httpReqProperties
  | RecordResponseSize "context" httpReqProperties int64
  | TracerStart "context" string string string request
  | SetAttributes attribute
  | SetName string
  | SetStatus code string
  | SpanEnd
  | HandlerServeHTTP responseWriter request
  | Next call

text \<open>
  \<^verbatim>\<open>TracerStart ctx spanName serverName routePattern r\<close> is the call of
  \<^verbatim>\<open>ow.tracer.Start\<close> with the arguments its attribute builders receive;
  \<^verbatim>\<open>Next c\<close> is a call that reaches the real response writer.
\<close>

type_synonym tracer = "context \<Rightarrow> string \<Rightarrow> context"
type_synonym propagator = "context \<Rightarrow> (string \<times> string) list \<Rightarrow> context"
type_synonym routes = "string \<Rightarrow> string \<Rightarrow> bool \<times> string"

text \<open>
  A tracer is the context that \<^verbatim>\<open>Start\<close> returns; a propagator is its
  \<^verbatim>\<open>Extract\<close>; a route table is \<^verbatim>\<open>Match\<close> on a fresh routing context, giving
  whether it matched and the \<^verbatim>\<open>RoutePattern()\<close> of that context afterwards.
\<close>

record otelware =
  serverName :: string
  tracer :: tracer
  meter :: nat
  propagators :: propagator
  handler :: handler
  chiRoutes :: "routes option"
  reqMethodInSpanName :: bool
  filter' :: "(request \<Rightarrow> bool) option"
  disableMeasureInflight :: bool
  disableMeasureSize :: bool

section \<open>The recording response writer\<close>

text \<open>The two hooks that \<^verbatim>\<open>getRRW\<close> installs, as updates of the recorder they close over.\<close>

definition Write_hook :: "byte list \<Rightarrow> recordingResponseWriter \<Rightarrow> recordingResponseWriter" where
  "Write_hook b rrw =
     (if \<not> written rrw
      then rrw\<lparr>written := True,
               writtenBytes := writtenBytes rrw + of_nat (length b),
               status := 200\<rparr>
      else rrw)"

definition WriteHeader_hook :: "int \<Rightarrow> recordingResponseWriter \<Rightarrow> recordingResponseWriter" where
  "WriteHeader_hook statusCode rrw =
     (if \<not> written rrw
      then rrw\<lparr>written := True, status := statusCode\<rparr>
      else rrw)"

text \<open>A call on the wrapped writer: the hooked methods run their hook, the others pass through.\<close>

fun hook :: "call \<Rightarrow> recordingResponseWriter \<Rightarrow> recordingResponseWriter" where
  "hook (Write b) rrw = Write_hook b rrw"
| "hook (WriteHeader statusCode) rrw = WriteHeader_hook statusCode rrw"
| "hook (HeaderSet k v) rrw = rrw"

text \<open>
  \<^verbatim>\<open>rrwPool\<close> as the list of the recorders it holds; \<^verbatim>\<open>Get\<close> takes one, or makes a
  zeroed one with \<^verbatim>\<open>New\<close>.
\<close>

definition rrwPool_New :: recordingResponseWriter where
  "rrwPool_New = \<lparr>writer = None, written = False, writtenBytes = 0, status = 0\<rparr>"

fun rrwPool_Get ::
  "recordingResponseWriter list \<Rightarrow> recordingResponseWriter \<times> recordingResponseWriter list" where
  "rrwPool_Get [] = (rrwPool_New, [])"
| "rrwPool_Get (x # xs) = (x, xs)"

definition getRRW ::
  "recordingResponseWriter list \<Rightarrow> responseWriter \<Rightarrow>
   recordingResponseWriter \<times> recordingResponseWriter list" where
  "getRRW pool w =
     (case rrwPool_Get pool of
        (rrw, pool') \<Rightarrow>
          (rrw\<lparr>written := False, writtenBytes := 0, status := 0, writer := Some (Wrap w)\<rparr>,
           pool'))"

definition putRRW ::
  "recordingResponseWriter \<Rightarrow> recordingResponseWriter list \<Rightarrow> recordingResponseWriter list" where
  "putRRW rrw pool = rrw\<lparr>writer := None\<rparr> # pool"

text \<open>How often the \<^verbatim>\<open>written\<close> flag goes from false to true while the calls run.\<close>

fun transitions :: "call list \<Rightarrow> recordingResponseWriter \<Rightarrow> nat" where
  "transitions [] rrw = 0"
| "transitions (c # cs) rrw =
     (if \<not> written rrw \<and> written (hook c rrw) then 1 else 0) + transitions cs (hook c rrw)"

section \<open>The middleware\<close>

definition addPrefixToSpanName :: "bool \<Rightarrow> string \<Rightarrow> string \<Rightarrow> string" where
  "addPrefixToSpanName shouldAdd prefix spanName =
     (let spanName1 = (if spanName = '''' then ''/'' else spanName)
      in if shouldAdd \<and> length spanName1 > 0 then prefix @ '' '' @ spanName1 else spanName1)"

text \<open>\<^verbatim>\<open>ow.filter != nil && !ow.filter(r)\<close>\<close>

definition skipped :: "otelware \<Rightarrow> request \<Rightarrow> bool" where
  "skipped ow r = (case filter' ow of None \<Rightarrow> False | Some f \<Rightarrow> \<not> f r)"

text \<open>
  The route resolution before dispatch: the pair \<^verbatim>\<open>(spanName, routePattern)\<close> after the
  block \<^verbatim>\<open>if ow.chiRoutes != nil { ... }\<close>.
\<close>

definition preResolve :: "otelware \<Rightarrow> request \<Rightarrow> string \<times> string" where
  "preResolve ow r =
     (case chiRoutes ow of
        None \<Rightarrow> ('''', '''')
      | Some routes \<Rightarrow>
          (case routes (reqMethod r) (reqURLPath r) of
             (True, pattern) \<Rightarrow>
               (addPrefixToSpanName (reqMethodInSpanName ow) (reqMethod r) pattern, pattern)
           | (False, pattern) \<Rightarrow> ('''', '''')))"

text \<open>The metrics label set before dispatch; \<^verbatim>\<open>Code\<close> has its zero value.\<close>

definition initialProps :: "otelware \<Rightarrow> request \<Rightarrow> string \<Rightarrow> httpReqProperties" where
  "initialProps ow r routePattern =
     (let props = \<lparr>Service = serverName ow, ID = routePattern, Method = reqMethod r, Code = 0\<rparr>
      in if routePattern = '''' then props\<lparr>ID := reqURLPath r\<rparr> else props)"

text \<open>
  The statements of \<^verbatim>\<open>ServeHTTP\<close> after the handler has returned, up to the end of the
  function body. \<^verbatim>\<open>spanStatus\<close> is \<^verbatim>\<open>semconv.SpanStatusFromHTTPStatusCode\<close>, a
  function of the semantic-conventions library.
\<close>

definition finalize ::
  "(int \<Rightarrow> code \<times> string) \<Rightarrow> otelware \<Rightarrow> request \<Rightarrow> context \<Rightarrow> httpReqProperties \<Rightarrow>
   string \<Rightarrow> recordingResponseWriter \<Rightarrow> run \<Rightarrow> event list" where
  "finalize spanStatus ow r ctx props routePattern rrw h =
     (let props1 = props\<lparr>Code := status rrw\<rparr>
      in [RecordRequestDuration ctx props1]
         @ (if \<not> disableMeasureSize ow
            then [RecordResponseSize ctx props1 (writtenBytes rrw)] else [])
         @ (if length routePattern = 0
            then [SetAttributes (HTTPRoute (routedPattern h)),
                  SetName (addPrefixToSpanName (reqMethodInSpanName ow) (reqMethod r)
                             (routedPattern h))]
            else [])
         @ (if status rrw > 0 then [SetAttributes (HTTPStatusCode (status rrw))] else [])
         @ (case spanStatus (status rrw) of
              (spanCode, spanMessage) \<Rightarrow> [SetStatus spanCode spanMessage]))"

record result =
  events :: "event list"
  finished :: outcome
  poolAfter :: "recordingResponseWriter list"

text \<open>
  \<^verbatim>\<open>ServeHTTP\<close>. The deferred calls are collected with their arguments as they are when
  \<^verbatim>\<open>defer\<close> is executed, and run last in first out when the function is left, by return or
  by a panic of the handler; \<^verbatim>\<open>putRRW\<close>, deferred last, runs first and acts on the pool.
\<close>

definition ServeHTTP ::
  "(int \<Rightarrow> code \<times> string) \<Rightarrow> otelware \<Rightarrow> recordingResponseWriter list \<Rightarrow>
   responseWriter \<Rightarrow> request \<Rightarrow> result" where
  "ServeHTTP spanStatus ow rrwPool w r =
     (if skipped ow r
      then
        (let h = handler ow r
         in \<lparr>events = HandlerServeHTTP w r # map Next (calls h),
             finished = ending h,
             poolAfter = rrwPool\<rparr>)
      else
        (let ctx = propagators ow (reqContext r) (reqHeader r);
             (spanName, routePattern) = preResolve ow r;
             props = initialProps ow r routePattern;
             inflight =
               (if \<not> disableMeasureInflight ow then [RecordRequestsInflight ctx props 1] else []);
             deferred1 =
               (if \<not> disableMeasureInflight ow then [RecordRequestsInflight ctx props (- 1)] else []);
             ctx1 = tracer ow ctx spanName;
             start = [TracerStart ctx spanName (serverName ow) routePattern r];
             deferred2 = SpanEnd # deferred1;
             (rrw, pool1) = getRRW rrwPool w;
             r1 = r\<lparr>reqContext := ctx1\<rparr>;
             h = handler ow r1;
             dispatch = HandlerServeHTTP (Wrap w) r1 # map Next (calls h);
             rrw1 = fold hook (calls h) rrw;
             rest =
               (case ending h of
                  Panics \<Rightarrow> []
                | Returns \<Rightarrow> finalize spanStatus ow r1 ctx1 props routePattern rrw1 h)
         in \<lparr>events = inflight @ start @ dispatch @ rest @ deferred2,
             finished = ending h,
             poolAfter = putRRW rrw1 pool1\<rparr>))"

subsection \<open>Configuration\<close>

record config =
  TracerProvider :: "(string \<Rightarrow> tracer) option"
  MeterProvider :: "(string \<Rightarrow> nat) option"
  Propagators :: "propagator option"
  ChiRoutes :: "routes option"
  RequestMethodInSpanName :: bool
  Filter :: "(request \<Rightarrow> bool) option"
  DisableMeasureInflight :: bool
  DisableMeasureSize :: bool
  TraceResponseHeaderKey :: string

text \<open>The zero value \<^verbatim>\<open>config{}\<close>.\<close>

definition config0 :: config where
  "config0 = \<lparr>TracerProvider = None, MeterProvider = None, Propagators = None, ChiRoutes = None,
     RequestMethodInSpanName = False, Filter = None, DisableMeasureInflight = False,
     DisableMeasureSize = False, TraceResponseHeaderKey = ''''\<rparr>"

definition WithPropagators :: "propagator option \<Rightarrow> config \<Rightarrow> config" where
  "WithPropagators p cfg = cfg\<lparr>Propagators := p\<rparr>"

definition WithTracerProvider :: "(string \<Rightarrow> tracer) option \<Rightarrow> config \<Rightarrow> config" where
  "WithTracerProvider provider cfg = cfg\<lparr>TracerProvider := provider\<rparr>"

definition WithMeterProvider :: "(string \<Rightarrow> nat) option \<Rightarrow> config \<Rightarrow> config" where
  "WithMeterProvider provider cfg = cfg\<lparr>MeterProvider := provider\<rparr>"

definition WithMeasureInflight :: "bool \<Rightarrow> config \<Rightarrow> config" where
  "WithMeasureInflight isDisabled cfg = cfg\<lparr>DisableMeasureInflight := isDisabled\<rparr>"

definition WithMeasureSize :: "bool \<Rightarrow> config \<Rightarrow> config" where
  "WithMeasureSize isDisabled cfg = cfg\<lparr>DisableMeasureSize := isDisabled\<rparr>"

definition WithChiRoutes :: "routes option \<Rightarrow> config \<Rightarrow> config" where
  "WithChiRoutes rs cfg = cfg\<lparr>ChiRoutes := rs\<rparr>"

definition WithRequestMethodInSpanName :: "bool \<Rightarrow> config \<Rightarrow> config" where
  "WithRequestMethodInSpanName isActive cfg = cfg\<lparr>RequestMethodInSpanName := isActive\<rparr>"

definition WithFilter :: "(request \<Rightarrow> bool) option \<Rightarrow> config \<Rightarrow> config" where
  "WithFilter f cfg = cfg\<lparr>Filter := f\<rparr>"

definition WithTraceResponseHeaderKey :: "string \<Rightarrow> config \<Rightarrow> config" where
  "WithTraceResponseHeaderKey name cfg = cfg\<lparr>TraceResponseHeaderKey := name\<rparr>"

text \<open>The providers and the propagator registered globally with the \<^verbatim>\<open>otel\<close> package.\<close>

record otel =
  GetTracerProvider :: "string \<Rightarrow> tracer"
  GetMeterProvider :: "string \<Rightarrow> nat"
  GetTextMapPropagator :: propagator

definition tracerName :: string where
  "tracerName = ''github.com/riandyrn/otelchi''"

definition Middleware ::
  "otel \<Rightarrow> string \<Rightarrow> (config \<Rightarrow> config) list \<Rightarrow> handler \<Rightarrow> otelware" where
  "Middleware global name opts =
     (let cfg = fold (\<lambda>opt c. opt c) opts config0;
          cfg1 = (if TracerProvider cfg = None
                  then cfg\<lparr>TracerProvider := Some (GetTracerProvider global)\<rparr> else cfg);
          tr = (case TracerProvider cfg1 of Some provider \<Rightarrow> provider tracerName
                | None \<Rightarrow> GetTracerProvider global tracerName);
          cfg2 = (if MeterProvider cfg1 = None
                  then cfg1\<lparr>MeterProvider := Some (GetMeterProvider global)\<rparr> else cfg1);
          mt = (case MeterProvider cfg2 of Some provider \<Rightarrow> provider tracerName
                | None \<Rightarrow> GetMeterProvider global tracerName);
          cfg3 = (if Propagators cfg2 = None
                  then cfg2\<lparr>Propagators := Some (GetTextMapPropagator global)\<rparr> else cfg2)
      in (\<lambda>h. \<lparr>serverName = name,
                tracer = tr,
                meter = mt,
                propagators = (case Propagators cfg3 of Some p \<Rightarrow> p
                               | None \<Rightarrow> GetTextMapPropagator global),
                handler = h,
                chiRoutes = ChiRoutes cfg3,
                reqMethodInSpanName = RequestMethodInSpanName cfg3,
                filter' = Filter cfg3,
                disableMeasureInflight = DisableMeasureInflight cfg3,
                disableMeasureSize = DisableMeasureSize cfg3\<rparr>))"

section \<open>Reading a run of \<^verbatim>\<open>ServeHTTP\<close>\<close>

text \<open>Names for the values that \<^verbatim>\<open>ServeHTTP\<close> computes on the traced path.\<close>

definition extracted :: "otelware \<Rightarrow> request \<Rightarrow> context" where
  "extracted ow r = propagators ow (reqContext r) (reqHeader r)"

definition dispatched :: "otelware \<Rightarrow> request \<Rightarrow> request" where
  "dispatched ow r = r\<lparr>reqContext := tracer ow (extracted ow r) (fst (preResolve ow r))\<rparr>"

definition served :: "otelware \<Rightarrow> request \<Rightarrow> run" where
  "served ow r = handler ow (dispatched ow r)"

definition recorded ::
  "otelware \<Rightarrow> recordingResponseWriter list \<Rightarrow> responseWriter \<Rightarrow> request \<Rightarrow>
   recordingResponseWriter" where
  "recorded ow rrwPool w r = fold hook (calls (served ow r)) (fst (getRRW rrwPool w))"

definition labels :: "otelware \<Rightarrow> request \<Rightarrow> httpReqProperties" where
  "labels ow r = initialProps ow r (snd (preResolve ow r))"

text \<open>The events by collaborator.\<close>

fun isMetric :: "event \<Rightarrow> bool" where
  "isMetric (RecordRequestsInflight ctx props d) = True"
| "isMetric (RecordRequestDuration ctx props) = True"
| "isMetric (RecordResponseSize ctx props n) = True"
| "isMetric e = False"

fun isSpan :: "event \<Rightarrow> bool" where
  "isSpan (TracerStart ctx spanName server routePattern r) = True"
| "isSpan (SetAttributes a) = True"
| "isSpan (SetName spanName) = True"
| "isSpan (SetStatus c msg) = True"
| "isSpan SpanEnd = True"
| "isSpan e = False"

fun isStart :: "event \<Rightarrow> bool" where
  "isStart (TracerStart ctx spanName server routePattern r) = True"
| "isStart e = False"

fun isEnd :: "event \<Rightarrow> bool" where
  "isEnd SpanEnd = True"
| "isEnd e = False"

fun isInflight :: "event \<Rightarrow> bool" where
  "isInflight (RecordRequestsInflight ctx props d) = True"
| "isInflight e = False"

fun isStatusAttribute :: "event \<Rightarrow> bool" where
  "isStatusAttribute (SetAttributes (HTTPStatusCode c)) = True"
| "isStatusAttribute e = False"

text \<open>The label set and the value of each recording, in order.\<close>

fun inflightRecord :: "event \<Rightarrow> (httpReqProperties \<times> int) list" where
  "inflightRecord (RecordRequestsInflight ctx props d) = [(props, d)]"
| "inflightRecord e = []"

fun laterRecord :: "event \<Rightarrow> httpReqProperties list" where
  "laterRecord (RecordRequestDuration ctx props) = [props]"
| "laterRecord (RecordResponseSize ctx props n) = [props]"
| "laterRecord e = []"

fun sizeRecord :: "event \<Rightarrow> int64 list" where
  "sizeRecord (RecordResponseSize ctx props n) = [n]"
| "sizeRecord e = []"

fun metricID :: "event \<Rightarrow> string list" where
  "metricID (RecordRequestsInflight ctx props d) = [ID props]"
| "metricID (RecordRequestDuration ctx props) = [ID props]"
| "metricID (RecordResponseSize ctx props n) = [ID props]"
| "metricID e = []"

text \<open>The names the span is given, at its start and by \<^verbatim>\<open>SetName\<close>: the last one stands.\<close>

fun spanNaming :: "event \<Rightarrow> string list" where
  "spanNaming (TracerStart ctx spanName server routePattern r) = [spanName]"
| "spanNaming (SetName spanName) = [spanName]"
| "spanNaming e = []"

text \<open>The route attributes set on the span.\<close>

fun routeAttribute :: "event \<Rightarrow> string list" where
  "routeAttribute (SetAttributes (HTTPRoute routePattern)) = [routePattern]"
| "routeAttribute e = []"

text \<open>The response headers set on the real writer, and the lengths of the body writes.\<close>

fun headerWrite :: "event \<Rightarrow> (string \<times> string) list" where
  "headerWrite (Next (HeaderSet k v)) = [(k, v)]"
| "headerWrite e = []"

fun bodyLength :: "call \<Rightarrow> nat list" where
  "bodyLength (Write b) = [length b]"
| "bodyLength c = []"

subsection \<open>The in-flight instrument\<close>

text \<open>
  Modelled from the spec: the recorder (\<^verbatim>\<open>newMetricsRecorder\<close>,
  \<^verbatim>\<open>RecordRequestsInflight\<close>) is not among the sources. By the specification it attaches
  the properties as attributes and records on an up/down counter keyed by the label set: a
  recording adds its value to the counter of its label set. \<^verbatim>\<open>inflightDelta\<close> is the
  change of the sum over all label sets, \<^verbatim>\<open>inflightDeltaFor l\<close> the change of the counter
  of the label set \<^verbatim>\<open>l\<close>; a count is the sum of the changes since the events began.
\<close>

fun inflightDelta :: "event \<Rightarrow> int" where
  "inflightDelta (RecordRequestsInflight ctx props d) = d"
| "inflightDelta e = 0"

fun inflightDeltaFor :: "httpReqProperties \<Rightarrow> event \<Rightarrow> int" where
  "inflightDeltaFor l (RecordRequestsInflight ctx props d) = (if props = l then d else 0)"
| "inflightDeltaFor l e = 0"

definition inflightCount :: "event list \<Rightarrow> int" where
  "inflightCount evs = sum_list (map inflightDelta evs)"

definition inflightCountFor :: "httpReqProperties \<Rightarrow> event list \<Rightarrow> int" where
  "inflightCountFor l evs = sum_list (map (inflightDeltaFor l) evs)"

subsection \<open>Requests served concurrently\<close>

text \<open>
  Requests run concurrently; the events of each stay in their order while a schedule picks
  whose turn it is. \<^verbatim>\<open>interleave sched ts\<close> merges the event lists \<^verbatim>\<open>ts\<close> by the
  schedule, and is \<^verbatim>\<open>None\<close> when the schedule does not fit them or leaves events over.
\<close>

fun interleave :: "nat list \<Rightarrow> 'a list list \<Rightarrow> 'a list option" where
  "interleave [] ts = (if concat ts = [] then Some [] else None)"
| "interleave (i # sched) ts =
     (if i < length ts
      then (case ts ! i of
              [] \<Rightarrow> None
            | x # rest \<Rightarrow> map_option ((#) x) (interleave sched (ts[i := rest])))
      else None)"

definition serve ::
  "(int \<Rightarrow> code \<times> string) \<Rightarrow>
   otelware \<times> recordingResponseWriter list \<times> responseWriter \<times> request \<Rightarrow> event list" where
  "serve spanStatus q = (case q of (ow, rrwPool, w, r) \<Rightarrow> events (ServeHTTP spanStatus ow rrwPool w r))"

section \<open>Example inputs\<close>

definition exampleGlobal :: otel where
  "exampleGlobal =
     \<lparr>GetTracerProvider = (\<lambda>name ctx spanName. (''span'', spanName) # ctx),
      GetMeterProvider = (\<lambda>name. 0),
      GetTextMapPropagator = (\<lambda>ctx hdr. filter (\<lambda>kv. fst kv = ''traceparent'') hdr @ ctx)\<rparr>"

text \<open>A status mapping in the manner of the semantic conventions, for the examples.\<close>

definition exampleSpanStatus :: "int \<Rightarrow> code \<times> string" where
  "exampleSpanStatus c =
     (if 100 \<le> c \<and> c < 400 then (Unset, '''')
      else if 400 \<le> c \<and> c < 600 then (Error, '''')
      else (Error, ''Invalid HTTP status code''))"

definition exampleRequest :: request where
  "exampleRequest =
     \<lparr>reqMethod = ''GET'', reqURLPath = ''/users/42'', reqHeader = [], reqContext = []\<rparr>"

definition exampleRoutes :: routes where
  "exampleRoutes method path =
     (if method = ''GET'' \<and> take 7 path = ''/users/'' then (True, ''/users/{id}'')
      else (False, ''''))"

definition twoWrites :: handler where
  "twoWrites r = \<lparr>calls = [Write [1, 2], Write [3, 4]], ending = Returns,
     routedPattern = ''/users/{id}''\<rparr>"

definition silent :: handler where
  "silent r = \<lparr>calls = [], ending = Returns, routedPattern = ''/users/{id}''\<rparr>"

definition panicking :: handler where
  "panicking r = \<lparr>calls = [WriteHeader 500], ending = Panics, routedPattern = ''/users/{id}''\<rparr>"

section \<open>The hooks\<close>

lemma hook_written_mono: "written rrw \<Longrightarrow> hook c rrw = rrw"
  by (cases c) (simp_all add: Write_hook_def WriteHeader_hook_def)

lemma fold_hook_written: "written rrw \<Longrightarrow> fold hook cs rrw = rrw"
  by (induction cs) (simp_all add: hook_written_mono)

lemma transitions_written: "written rrw \<Longrightarrow> transitions cs rrw = 0"
  by (induction cs) (simp_all add: hook_written_mono)

lemma transitions_le_1: "transitions cs rrw \<le> 1"
proof (induction cs arbitrary: rrw)
  case Nil
  show ?case by simp
next
  case (Cons c cs)
  show ?case
  proof (cases "\<not> written rrw \<and> written (hook c rrw)")
    case True
    then show ?thesis by (simp add: transitions_written)
  next
    case False
    then show ?thesis using Cons.IH [of "hook c rrw"] by auto
  qed
qed

lemma fold_hook_HeaderSet:
  "fold hook (map (\<lambda>(k, v). HeaderSet k v) hs) rrw = rrw"
  by (induction hs) (simp_all add: case_prod_beta)

lemma getRRW_fresh:
  "written (fst (getRRW pool w)) = False"
  "writtenBytes (fst (getRRW pool w)) = 0"
  "status (fst (getRRW pool w)) = 0"
  "writer (fst (getRRW pool w)) = Some (Wrap w)"
  by (simp_all add: getRRW_def split: prod.splits)

text \<open>
  Claim C6. The \<^verbatim>\<open>written\<close> flag of the response recorder goes from false to true at most
  once while a handler's calls run, and never back; the call that sets it is the first status
  write or body write, whichever comes first. On a recorder fresh from \<^verbatim>\<open>getRRW\<close>: a body
  write with no status write before it (response headers may have been set) records status 200;
  a status write records its own status code, whatever body writes and status writes follow, so
  a second status write does not change the recorded status.
\<close>

theorem C6_written_once:
  "transitions cs rrw \<le> 1
   \<and> (written rrw \<longrightarrow> written (fold hook cs rrw) \<and> status (fold hook cs rrw) = status rrw)
   \<and> (\<not> written rrw \<longrightarrow> written (hook (Write b) rrw) \<and> written (hook (WriteHeader c) rrw))
   \<and> written (fold hook (map (\<lambda>(k, v). HeaderSet k v) hs) (fst (getRRW pool w))) = False
   \<and> status (fold hook (map (\<lambda>(k, v). HeaderSet k v) hs @ Write b # cs) (fst (getRRW pool w))) = 200
   \<and> status (fold hook (map (\<lambda>(k, v). HeaderSet k v) hs @ WriteHeader c # cs) (fst (getRRW pool w))) = c
   \<and> status (fold hook (WriteHeader c # WriteHeader c' # cs) (fst (getRRW pool w))) = c
   \<and> status (fold hook (WriteHeader c # Write b # cs) (fst (getRRW pool w))) = c"
proof -
  let ?r0 = "fst (getRRW pool w)"
  have w1: "written (hook (Write b) ?r0)" and s1: "status (hook (Write b) ?r0) = 200"
    by (simp_all add: Write_hook_def getRRW_fresh)
  have w2: "written (hook (WriteHeader c) ?r0)" and s2: "status (hook (WriteHeader c) ?r0) = c"
    by (simp_all add: WriteHeader_hook_def getRRW_fresh)
  have a: "status (fold hook (map (\<lambda>(k, v). HeaderSet k v) hs @ Write b # cs) ?r0) = 200"
    using fold_hook_written [OF w1, of cs] s1 by (simp add: fold_hook_HeaderSet)
  have b: "status (fold hook (map (\<lambda>(k, v). HeaderSet k v) hs @ WriteHeader c # cs) ?r0) = c"
    using fold_hook_written [OF w2, of cs] s2 by (simp add: fold_hook_HeaderSet)
  have d: "status (fold hook (WriteHeader c # cs') ?r0) = c" for cs'
    using fold_hook_written [OF w2, of cs'] s2 by simp
  have c1: "written rrw \<longrightarrow> written (fold hook cs rrw) \<and> status (fold hook cs rrw) = status rrw"
    by (simp add: fold_hook_written)
  have c2: "\<not> written rrw \<longrightarrow> written (hook (Write b) rrw) \<and> written (hook (WriteHeader c) rrw)"
    by (simp add: Write_hook_def WriteHeader_hook_def)
  have e: "written (fold hook (map (\<lambda>(k, v). HeaderSet k v) hs) ?r0) = False"
    by (simp add: fold_hook_HeaderSet getRRW_fresh)
  from transitions_le_1 [of cs rrw] c1 c2 e a b d [of "WriteHeader c' # cs"] d [of "Write b # cs"]
  show ?thesis by blast
qed

theorem C6_written_once_witness:
  "written (hook (WriteHeader 404) rrwPool_New)
   \<and> status (fold hook [WriteHeader 500, Write [1, 2]] (hook (WriteHeader 404) rrwPool_New)) = 404
   \<and> \<not> written rrwPool_New \<and> written (hook (Write [7]) rrwPool_New)"
  using C6_written_once [of "[WriteHeader 500, Write [1, 2]]" "hook (WriteHeader 404) rrwPool_New"
      "[7]" 404 "[]" "[]" "ResponseWriter 0" 500]
    C6_written_once [of "[]" rrwPool_New "[7]" 404 "[]" "[]" "ResponseWriter 0" 500]
  by (simp add: rrwPool_New_def WriteHeader_hook_def Write_hook_def)

section \<open>The run of a request\<close>

lemma ServeHTTP_skipped:
  "skipped ow r \<Longrightarrow>
   ServeHTTP st ow rrwPool w r =
     \<lparr>events = HandlerServeHTTP w r # map Next (calls (handler ow r)),
      finished = ending (handler ow r), poolAfter = rrwPool\<rparr>"
  by (simp add: ServeHTTP_def Let_def)

lemma ServeHTTP_events:
  "\<not> skipped ow r \<Longrightarrow>
   events (ServeHTTP st ow rrwPool w r) =
     (if \<not> disableMeasureInflight ow
      then [RecordRequestsInflight (extracted ow r) (labels ow r) 1] else [])
     @ [TracerStart (extracted ow r) (fst (preResolve ow r)) (serverName ow)
          (snd (preResolve ow r)) r]
     @ (HandlerServeHTTP (Wrap w) (dispatched ow r) # map Next (calls (served ow r)))
     @ (case ending (served ow r) of
          Panics \<Rightarrow> []
        | Returns \<Rightarrow>
            finalize st ow (dispatched ow r) (reqContext (dispatched ow r)) (labels ow r)
              (snd (preResolve ow r)) (recorded ow rrwPool w r) (served ow r))
     @ SpanEnd
       # (if \<not> disableMeasureInflight ow
          then [RecordRequestsInflight (extracted ow r) (labels ow r) (- 1)] else [])"
  by (simp add: ServeHTTP_def Let_def case_prod_beta extracted_def dispatched_def served_def
      recorded_def labels_def split: outcome.splits)

lemma ServeHTTP_finished:
  "\<not> skipped ow r \<Longrightarrow> finished (ServeHTTP st ow rrwPool w r) = ending (served ow r)"
  by (simp add: ServeHTTP_def Let_def case_prod_beta extracted_def dispatched_def served_def)



lemma filter_Next [simp]:
  "filter isStart (map Next cs) = []" "filter isEnd (map Next cs) = []"
  "filter isInflight (map Next cs) = []" "filter isMetric (map Next cs) = []"
  "filter isSpan (map Next cs) = []" "filter isStatusAttribute (map Next cs) = []"
  by (induction cs) simp_all

lemma concat_Next [simp]:
  "concat (map (inflightRecord \<circ> Next) cs) = []"
  "concat (map (laterRecord \<circ> Next) cs) = []"
  "concat (map (metricID \<circ> Next) cs) = []"
  "concat (map (spanNaming \<circ> Next) cs) = []"
  "concat (map (sizeRecord \<circ> Next) cs) = []"
  "concat (map (routeAttribute \<circ> Next) cs) = []"
  by (induction cs) simp_all

lemma sum_Next [simp]:
  "sum_list (map (inflightDelta \<circ> Next) cs) = 0"
  "sum_list (map (inflightDeltaFor l \<circ> Next) cs) = 0"
  by (induction cs) simp_all

lemma finalize_filter [simp]:
  "filter isStart (finalize st ow r ctx props rp rrw h) = []"
  "filter isEnd (finalize st ow r ctx props rp rrw h) = []"
  "filter isInflight (finalize st ow r ctx props rp rrw h) = []"
  by (simp_all add: finalize_def Let_def case_prod_beta)

lemma finalize_inflight [simp]:
  "concat (map inflightRecord (finalize st ow r ctx props rp rrw h)) = []"
  "sum_list (map inflightDelta (finalize st ow r ctx props rp rrw h)) = 0"
  "sum_list (map (inflightDeltaFor l) (finalize st ow r ctx props rp rrw h)) = 0"
  by (auto simp: finalize_def Let_def case_prod_beta)

text \<open>
  Claim C5. For every request that is not skipped by the filter, \<^verbatim>\<open>ServeHTTP\<close> starts
  exactly one span and ends exactly one span, the handler is called between the two, and this
  holds whether the handler returns or panics (the panic is passed on).
\<close>

theorem C5_one_span:
  assumes "\<not> skipped ow r"
  shows "length (filter isStart (events (ServeHTTP st ow rrwPool w r))) = 1
    \<and> length (filter isEnd (events (ServeHTTP st ow rrwPool w r))) = 1
    \<and> (\<exists>before during after.
          events (ServeHTTP st ow rrwPool w r) =
            before @ [TracerStart (extracted ow r) (fst (preResolve ow r)) (serverName ow)
                        (snd (preResolve ow r)) r] @ during @ [SpanEnd] @ after
          \<and> HandlerServeHTTP (Wrap w) (dispatched ow r) \<in> set during)
    \<and> finished (ServeHTTP st ow rrwPool w r) = ending (served ow r)"
proof -
  let ?evs = "events (ServeHTTP st ow rrwPool w r)"
  have a: "length (filter isStart ?evs) = 1"
    by (simp add: ServeHTTP_events [OF assms] split: outcome.splits)
  have b: "length (filter isEnd ?evs) = 1"
    by (simp add: ServeHTTP_events [OF assms] split: outcome.splits)
  have c: "\<exists>before during after.
          ?evs = before @ [TracerStart (extracted ow r) (fst (preResolve ow r)) (serverName ow)
                        (snd (preResolve ow r)) r] @ during @ [SpanEnd] @ after
          \<and> HandlerServeHTTP (Wrap w) (dispatched ow r) \<in> set during"
    apply (rule exI [of _ "if \<not> disableMeasureInflight ow
      then [RecordRequestsInflight (extracted ow r) (labels ow r) 1] else []"])
    apply (rule exI [of _ "(HandlerServeHTTP (Wrap w) (dispatched ow r) # map Next (calls (served ow r)))
     @ (case ending (served ow r) of
          Panics \<Rightarrow> []
        | Returns \<Rightarrow>
            finalize st ow (dispatched ow r) (reqContext (dispatched ow r)) (labels ow r)
              (snd (preResolve ow r)) (recorded ow rrwPool w r) (served ow r))"])
    apply (rule exI [of _ "if \<not> disableMeasureInflight ow
          then [RecordRequestsInflight (extracted ow r) (labels ow r) (- 1)] else []"])
    apply (simp add: ServeHTTP_events [OF assms])
    done
  show ?thesis using a b c ServeHTTP_finished [OF assms] by blast
qed


lemmas example_defs = Middleware_def config0_def exampleGlobal_def exampleRequest_def
  exampleRoutes_def twoWrites_def silent_def panicking_def exampleSpanStatus_def
  WithFilter_def WithChiRoutes_def WithRequestMethodInSpanName_def WithMeasureInflight_def
  WithMeasureSize_def WithTraceResponseHeaderKey_def

lemmas run_defs = skipped_def extracted_def dispatched_def served_def recorded_def labels_def
  preResolve_def initialProps_def addPrefixToSpanName_def finalize_def getRRW_def putRRW_def
  rrwPool_New_def Write_hook_def WriteHeader_hook_def

theorem C5_one_span_witness:
  "\<not> skipped (Middleware exampleGlobal ''svc'' [] panicking) exampleRequest
   \<and> length (filter isStart (events (ServeHTTP exampleSpanStatus
         (Middleware exampleGlobal ''svc'' [] panicking) [] (ResponseWriter 0) exampleRequest))) = 1
   \<and> length (filter isEnd (events (ServeHTTP exampleSpanStatus
         (Middleware exampleGlobal ''svc'' [] panicking) [] (ResponseWriter 0) exampleRequest))) = 1
   \<and> finished (ServeHTTP exampleSpanStatus
         (Middleware exampleGlobal ''svc'' [] panicking) [] (ResponseWriter 0) exampleRequest) = Panics"
proof -
  have h: "\<not> skipped (Middleware exampleGlobal ''svc'' [] panicking) exampleRequest"
    by (simp add: skipped_def Middleware_def config0_def)
  have e: "ending (served (Middleware exampleGlobal ''svc'' [] panicking) exampleRequest) = Panics"
    by (simp add: served_def Middleware_def config0_def panicking_def)
  show ?thesis
    using h e C5_one_span [OF h, of exampleSpanStatus "[]" "ResponseWriter 0"] by simp
qed

text \<open>
  Claim C7. When a filter is configured and returns false for the request, \<^verbatim>\<open>ServeHTTP\<close>
  does nothing but call the downstream handler with the response writer it was given, not
  wrapped, and the request it was given, unchanged: the only events are the handler's call and
  the handler's own calls on the writer, so no span is started or touched and no metric is
  recorded; the pool of recorders is left as it was.
\<close>

theorem C7_filtered_bypass:
  assumes "filter' ow = Some f" and "\<not> f r"
  shows "ServeHTTP st ow rrwPool w r =
      \<lparr>events = HandlerServeHTTP w r # map Next (calls (handler ow r)),
       finished = ending (handler ow r), poolAfter = rrwPool\<rparr>
    \<and> filter isSpan (events (ServeHTTP st ow rrwPool w r)) = []
    \<and> filter isMetric (events (ServeHTTP st ow rrwPool w r)) = []"
proof -
  have s: "skipped ow r" using assms by (simp add: skipped_def)
  show ?thesis by (simp add: ServeHTTP_skipped [OF s])
qed

theorem C7_filtered_bypass_witness:
  "filter' (Middleware exampleGlobal ''svc''
       [WithFilter (Some (\<lambda>r. reqURLPath r \<noteq> ''/users/42''))] twoWrites)
     = Some (\<lambda>r. reqURLPath r \<noteq> ''/users/42'')
   \<and> \<not> reqURLPath exampleRequest \<noteq> ''/users/42''
   \<and> events (ServeHTTP exampleSpanStatus (Middleware exampleGlobal ''svc''
       [WithFilter (Some (\<lambda>r. reqURLPath r \<noteq> ''/users/42''))] twoWrites) []
       (ResponseWriter 0) exampleRequest)
     = [HandlerServeHTTP (ResponseWriter 0) exampleRequest, Next (Write [1, 2]), Next (Write [3, 4])]"
proof -
  let ?f = "\<lambda>r. reqURLPath r \<noteq> ''/users/42''"
  let ?ow = "Middleware exampleGlobal ''svc'' [WithFilter (Some ?f)] twoWrites"
  have f: "filter' ?ow = Some ?f"
    by (simp add: Middleware_def config0_def WithFilter_def)
  have n: "\<not> ?f exampleRequest" by (simp add: exampleRequest_def)
  have h: "calls (handler ?ow exampleRequest) = [Write [1, 2], Write [3, 4]]"
    by (simp add: Middleware_def config0_def WithFilter_def twoWrites_def)
  show ?thesis
    using f n h C7_filtered_bypass [OF f n, of exampleSpanStatus "[]" "ResponseWriter 0"] by simp
qed

text \<open>
  Claim C1 (fails on the code). A handler that writes two bytes and then two more has written
  four bytes; the size passed to \<^verbatim>\<open>RecordResponseSize\<close> is 2, the length of the first
  write, since \<^verbatim>\<open>writtenBytes\<close> is only increased under \<^verbatim>\<open>if !rrw.written\<close>.
\<close>

theorem C1_bytes_written_first_write_only:
  "concat (map sizeRecord (events (ServeHTTP exampleSpanStatus
       (Middleware exampleGlobal ''svc'' [] twoWrites) [] (ResponseWriter 0) exampleRequest))) = [2]
   \<and> sum_list (concat (map bodyLength (calls (served
       (Middleware exampleGlobal ''svc'' [] twoWrites) exampleRequest)))) = 4
   \<and> \<not> skipped (Middleware exampleGlobal ''svc'' [] twoWrites) exampleRequest"
  by (simp add: ServeHTTP_def Let_def example_defs run_defs)

text \<open>
  Claim C2 (fails on the code). \<^verbatim>\<open>WithTraceResponseHeaderKey\<close> stores the key in the
  configuration, and \<^verbatim>\<open>Middleware\<close> never reads it: the middleware built with the option
  is the middleware built without it, and serving a request with the key configured sets no
  response header on the real writer.
\<close>

theorem C2_trace_header_key_unused:
  "Middleware global name (opts @ [WithTraceResponseHeaderKey key]) = Middleware global name opts
   \<and> concat (map headerWrite (events (ServeHTTP exampleSpanStatus
       (Middleware exampleGlobal ''svc'' [WithTraceResponseHeaderKey ''X-Trace-Id''] twoWrites) []
       (ResponseWriter 0) exampleRequest))) = []
   \<and> \<not> skipped (Middleware exampleGlobal ''svc'' [WithTraceResponseHeaderKey ''X-Trace-Id''] twoWrites)
       exampleRequest"
proof -
  have a: "Middleware global name (opts @ [WithTraceResponseHeaderKey key]) = Middleware global name opts"
    by (simp add: Middleware_def WithTraceResponseHeaderKey_def Let_def)
  have b: "concat (map headerWrite (events (ServeHTTP exampleSpanStatus
       (Middleware exampleGlobal ''svc'' [WithTraceResponseHeaderKey ''X-Trace-Id''] twoWrites) []
       (ResponseWriter 0) exampleRequest))) = []"
    by (simp add: ServeHTTP_def Let_def example_defs run_defs)
  have c: "\<not> skipped (Middleware exampleGlobal ''svc'' [WithTraceResponseHeaderKey ''X-Trace-Id''] twoWrites)
       exampleRequest"
    by (simp add: example_defs run_defs)
  show ?thesis using a b c by blast
qed

section \<open>Finalization, routes and labels\<close>

lemma finalize_tail:
  "finalize st ow r ctx props rp rrw h =
     ([RecordRequestDuration ctx (props\<lparr>Code := status rrw\<rparr>)]
      @ (if \<not> disableMeasureSize ow
         then [RecordResponseSize ctx (props\<lparr>Code := status rrw\<rparr>) (writtenBytes rrw)] else [])
      @ (if length rp = 0
         then [SetAttributes (HTTPRoute (routedPattern h)),
               SetName (addPrefixToSpanName (reqMethodInSpanName ow) (reqMethod r) (routedPattern h))]
         else []))
     @ (if status rrw > 0 then [SetAttributes (HTTPStatusCode (status rrw))] else [])
     @ [SetStatus (fst (st (status rrw))) (snd (st (status rrw)))]"
  by (simp add: finalize_def Let_def case_prod_beta)

text \<open>
  Claim C3, as amended. For every request that is not skipped by the filter and whose handler
  returns, the last things done to the span before it is ended are: the recorded response
  status is set as the HTTP status-code attribute if it is greater than 0 (no status-code
  attribute is set otherwise, so none when the handler never wrote anything and the recorded
  status is 0), and the span status set is the classification (code and description) that
  \<^verbatim>\<open>SpanStatusFromHTTPStatusCode\<close> gives for the recorded status, 0 included.
\<close>

theorem C3_status_set_at_finalization:
  assumes "\<not> skipped ow r" and "ending (served ow r) = Returns"
  shows "\<exists>before after.
      events (ServeHTTP st ow rrwPool w r) =
        before
        @ (if status (recorded ow rrwPool w r) > 0
           then [SetAttributes (HTTPStatusCode (status (recorded ow rrwPool w r)))] else [])
        @ [SetStatus (fst (st (status (recorded ow rrwPool w r))))
             (snd (st (status (recorded ow rrwPool w r))))]
        @ [SpanEnd] @ after
      \<and> filter isStatusAttribute before = []
      \<and> filter isSpan after = []"
proof -
  let ?s = "status (recorded ow rrwPool w r)"
  let ?before = "(if \<not> disableMeasureInflight ow
      then [RecordRequestsInflight (extracted ow r) (labels ow r) 1] else [])
     @ [TracerStart (extracted ow r) (fst (preResolve ow r)) (serverName ow)
          (snd (preResolve ow r)) r]
     @ (HandlerServeHTTP (Wrap w) (dispatched ow r) # map Next (calls (served ow r)))
     @ ([RecordRequestDuration (reqContext (dispatched ow r)) ((labels ow r)\<lparr>Code := ?s\<rparr>)]
      @ (if \<not> disableMeasureSize ow
         then [RecordResponseSize (reqContext (dispatched ow r)) ((labels ow r)\<lparr>Code := ?s\<rparr>)
                 (writtenBytes (recorded ow rrwPool w r))] else [])
      @ (if length (snd (preResolve ow r)) = 0
         then [SetAttributes (HTTPRoute (routedPattern (served ow r))),
               SetName (addPrefixToSpanName (reqMethodInSpanName ow) (reqMethod (dispatched ow r))
                 (routedPattern (served ow r)))]
         else []))"
  let ?after = "if \<not> disableMeasureInflight ow
          then [RecordRequestsInflight (extracted ow r) (labels ow r) (- 1)] else []"
  have e: "events (ServeHTTP st ow rrwPool w r) =
        ?before @ (if ?s > 0 then [SetAttributes (HTTPStatusCode ?s)] else [])
        @ [SetStatus (fst (st ?s)) (snd (st ?s))] @ [SpanEnd] @ ?after"
    by (simp add: ServeHTTP_events [OF assms(1)] assms(2) finalize_tail)
  have b: "filter isStatusAttribute ?before = []" by simp
  have a: "filter isSpan ?after = []" by simp
  from e b a show ?thesis by blast
qed

theorem C3_status_set_at_finalization_witness:
  "\<not> skipped (Middleware exampleGlobal ''svc'' [] twoWrites) exampleRequest
   \<and> ending (served (Middleware exampleGlobal ''svc'' [] twoWrites) exampleRequest) = Returns
   \<and> status (recorded (Middleware exampleGlobal ''svc'' [] twoWrites) [] (ResponseWriter 0)
        exampleRequest) = 200
   \<and> (\<exists>before after.
        events (ServeHTTP exampleSpanStatus (Middleware exampleGlobal ''svc'' [] twoWrites) []
          (ResponseWriter 0) exampleRequest) =
        before @ [SetAttributes (HTTPStatusCode 200)] @ [SetStatus Unset ''''] @ [SpanEnd] @ after
        \<and> filter isStatusAttribute before = [] \<and> filter isSpan after = [])"
proof -
  let ?ow = "Middleware exampleGlobal ''svc'' [] twoWrites"
  have h: "\<not> skipped ?ow exampleRequest" by (simp add: example_defs run_defs)
  have e: "ending (served ?ow exampleRequest) = Returns" by (simp add: example_defs run_defs)
  have s: "status (recorded ?ow [] (ResponseWriter 0) exampleRequest) = 200"
    by (simp add: example_defs run_defs)
  have x: "exampleSpanStatus 200 = (Unset, '''')" by (simp add: exampleSpanStatus_def)
  show ?thesis
    using h e s C3_status_set_at_finalization [OF h e, of exampleSpanStatus "[]" "ResponseWriter 0"]
    by (simp add: x)
qed

text \<open>
  Claim C3 as stated fails: when the handler writes nothing the recorded status is 0, and no
  status-code attribute is set on the span, because of the guard \<^verbatim>\<open>if rrw.status > 0\<close>.
\<close>

theorem C3_counterexample:
  "\<not> skipped (Middleware exampleGlobal ''svc'' [] silent) exampleRequest
   \<and> status (recorded (Middleware exampleGlobal ''svc'' [] silent) [] (ResponseWriter 0)
        exampleRequest) = 0
   \<and> SetAttributes (HTTPStatusCode 0) \<notin> set (events (ServeHTTP exampleSpanStatus
        (Middleware exampleGlobal ''svc'' [] silent) [] (ResponseWriter 0) exampleRequest))
   \<and> filter isStatusAttribute (events (ServeHTTP exampleSpanStatus
        (Middleware exampleGlobal ''svc'' [] silent) [] (ResponseWriter 0) exampleRequest)) = []"
  by (simp add: ServeHTTP_def Let_def example_defs run_defs)


lemma preResolve_unmatched:
  "chiRoutes ow = None \<or> (\<exists>routes. chiRoutes ow = Some routes
     \<and> \<not> fst (routes (reqMethod r) (reqURLPath r))) \<Longrightarrow>
   preResolve ow r = ('''', '''')"
  by (auto simp: preResolve_def split: prod.splits bool.splits)


lemma finalize_laterRecord:
  "concat (map laterRecord (finalize st ow r ctx props rp rrw h)) =
     replicate (if disableMeasureSize ow then 1 else 2) (props\<lparr>Code := status rrw\<rparr>)"
  by (auto simp: finalize_tail numeral_2_eq_2)

lemma finalize_spanNaming:
  "concat (map spanNaming (finalize st ow r ctx props rp rrw h)) =
     (if length rp = 0
      then [addPrefixToSpanName (reqMethodInSpanName ow) (reqMethod r) (routedPattern h)]
      else [])"
  by (simp add: finalize_tail)



lemma events_laterRecord:
  assumes "\<not> skipped ow r"
  shows "concat (map laterRecord (events (ServeHTTP st ow rrwPool w r))) =
     (case ending (served ow r) of
        Panics \<Rightarrow> []
      | Returns \<Rightarrow> replicate (if disableMeasureSize ow then 1 else 2)
          ((labels ow r)\<lparr>Code := status (recorded ow rrwPool w r)\<rparr>))"
  by (cases "ending (served ow r)")
    (simp_all add: ServeHTTP_events [OF assms] finalize_laterRecord)

lemma events_inflightRecord:
  assumes "\<not> skipped ow r"
  shows "concat (map inflightRecord (events (ServeHTTP st ow rrwPool w r))) =
     (if disableMeasureInflight ow then [] else [(labels ow r, 1), (labels ow r, - 1)])"
  by (cases "ending (served ow r)")
    (simp_all add: ServeHTTP_events [OF assms])



lemma addPrefixToSpanName_value:
  "addPrefixToSpanName shouldAdd prefix spanName =
     (if shouldAdd then prefix @ '' '' else []) @ (if spanName = [] then ''/'' else spanName)"
  by (simp add: addPrefixToSpanName_def Let_def)

lemma finalize_routeAttribute:
  "concat (map routeAttribute (finalize st ow r ctx props rp rrw h)) =
     (if length rp = 0 then [routedPattern h] else [])"
  by (simp add: finalize_tail)

text \<open>
  Claim C9, as amended. For every request that is not skipped by the filter, when no route
  table is configured or its match fails, the identifier of the metrics label set is the
  literal request path, and that is the label of the recording made before dispatch (the
  in-flight increment, when enabled); the span starts with the empty name and no route
  attribute. When the handler returns, the pattern of the router's routing context is set as
  the span's route attribute, once, and the span is renamed, once, to that pattern (\<open>/\<close> when
  the pattern is empty) with the method and a space before it when the method-in-span-name
  toggle is on. When the handler panics, the statements after the dispatch do not run: no
  route attribute is set and the span keeps the empty name.
\<close>

theorem C9_no_route_table:
  assumes "\<not> skipped ow r"
    and "chiRoutes ow = None \<or> (\<exists>routes. chiRoutes ow = Some routes
           \<and> \<not> fst (routes (reqMethod r) (reqURLPath r)))"
  shows "ID (labels ow r) = reqURLPath r
    \<and> (\<exists>before after.
          events (ServeHTTP st ow rrwPool w r) =
            before @ [HandlerServeHTTP (Wrap w) (dispatched ow r)] @ after
          \<and> concat (map inflightRecord before) =
              (if disableMeasureInflight ow then [] else [(labels ow r, 1)])
          \<and> concat (map metricID before) =
              (if disableMeasureInflight ow then [] else [reqURLPath r])
          \<and> concat (map spanNaming before) = [[]]
          \<and> concat (map routeAttribute before) = []
          \<and> (ending (served ow r) = Returns \<longrightarrow>
               SetAttributes (HTTPRoute (routedPattern (served ow r))) \<in> set after
               \<and> concat (map routeAttribute after) = [routedPattern (served ow r)]
               \<and> concat (map spanNaming after) =
                   [(if reqMethodInSpanName ow then reqMethod r @ '' '' else [])
                    @ (if routedPattern (served ow r) = [] then ''/''
                       else routedPattern (served ow r))])
          \<and> (ending (served ow r) = Panics \<longrightarrow>
               concat (map routeAttribute after) = []
               \<and> concat (map spanNaming after) = []))"
proof -
  note pre = preResolve_unmatched [OF assms(2)]
  have id: "ID (labels ow r) = reqURLPath r"
    by (simp add: labels_def pre initialProps_def)
  let ?before = "(if \<not> disableMeasureInflight ow
      then [RecordRequestsInflight (extracted ow r) (labels ow r) 1] else [])
     @ [TracerStart (extracted ow r) (fst (preResolve ow r)) (serverName ow)
          (snd (preResolve ow r)) r]"
  let ?after = "map Next (calls (served ow r))
     @ (case ending (served ow r) of
          Panics \<Rightarrow> []
        | Returns \<Rightarrow>
            finalize st ow (dispatched ow r) (reqContext (dispatched ow r)) (labels ow r)
              (snd (preResolve ow r)) (recorded ow rrwPool w r) (served ow r))
     @ SpanEnd
       # (if \<not> disableMeasureInflight ow
          then [RecordRequestsInflight (extracted ow r) (labels ow r) (- 1)] else [])"
  have e: "events (ServeHTTP st ow rrwPool w r) =
      ?before @ [HandlerServeHTTP (Wrap w) (dispatched ow r)] @ ?after"
    by (simp add: ServeHTTP_events [OF assms(1)])
  have b1: "concat (map inflightRecord ?before) =
      (if disableMeasureInflight ow then [] else [(labels ow r, 1)])"
    by simp
  have b2: "concat (map metricID ?before) =
      (if disableMeasureInflight ow then [] else [reqURLPath r])"
    by (simp add: id)
  have b3: "concat (map spanNaming ?before) = [[]]"
    by (simp add: pre)
  have b4: "concat (map routeAttribute ?before) = []"
    by simp
  have m: "reqMethod (dispatched ow r) = reqMethod r" by (simp add: dispatched_def)
  have a1: "ending (served ow r) = Returns \<longrightarrow>
      SetAttributes (HTTPRoute (routedPattern (served ow r))) \<in> set ?after"
    by (simp add: finalize_tail pre)
  have a2: "ending (served ow r) = Returns \<longrightarrow>
      concat (map routeAttribute ?after) = [routedPattern (served ow r)]"
    by (simp add: finalize_routeAttribute pre)
  have a3: "ending (served ow r) = Returns \<longrightarrow>
      concat (map spanNaming ?after) =
        [(if reqMethodInSpanName ow then reqMethod r @ '' '' else [])
         @ (if routedPattern (served ow r) = [] then ''/'' else routedPattern (served ow r))]"
    by (simp add: finalize_spanNaming pre m addPrefixToSpanName_value)
  have p: "ending (served ow r) = Panics \<longrightarrow>
      concat (map routeAttribute ?after) = [] \<and> concat (map spanNaming ?after) = []"
    by simp
  from id e b1 b2 b3 b4 a1 a2 a3 p show ?thesis by blast
qed

theorem C9_no_route_table_witness:
  "\<not> skipped (Middleware exampleGlobal ''svc'' [WithRequestMethodInSpanName True] twoWrites)
       exampleRequest
   \<and> chiRoutes (Middleware exampleGlobal ''svc'' [WithRequestMethodInSpanName True] twoWrites)
       = None
   \<and> ending (served (Middleware exampleGlobal ''svc'' [WithRequestMethodInSpanName True] twoWrites)
       exampleRequest) = Returns
   \<and> ID (labels (Middleware exampleGlobal ''svc'' [WithRequestMethodInSpanName True] twoWrites)
       exampleRequest) = ''/users/42''
   \<and> concat (map routeAttribute (events (ServeHTTP exampleSpanStatus
       (Middleware exampleGlobal ''svc'' [WithRequestMethodInSpanName True] twoWrites) []
       (ResponseWriter 0) exampleRequest))) = [''/users/{id}'']
   \<and> concat (map spanNaming (events (ServeHTTP exampleSpanStatus
       (Middleware exampleGlobal ''svc'' [WithRequestMethodInSpanName True] twoWrites) []
       (ResponseWriter 0) exampleRequest))) = ['''', ''GET /users/{id}'']
   \<and> \<not> skipped (Middleware exampleGlobal ''svc'' [] panicking) exampleRequest
   \<and> chiRoutes (Middleware exampleGlobal ''svc'' [] panicking) = None
   \<and> ending (served (Middleware exampleGlobal ''svc'' [] panicking) exampleRequest) = Panics
   \<and> concat (map spanNaming (events (ServeHTTP exampleSpanStatus
       (Middleware exampleGlobal ''svc'' [] panicking) [] (ResponseWriter 0) exampleRequest)))
       = ['''']"
proof -
  let ?ow = "Middleware exampleGlobal ''svc'' [WithRequestMethodInSpanName True] twoWrites"
  let ?pw = "Middleware exampleGlobal ''svc'' [] panicking"
  have h: "\<not> skipped ?ow exampleRequest" by (simp add: example_defs run_defs)
  have c: "chiRoutes ?ow = None"
    by (simp add: Middleware_def config0_def WithRequestMethodInSpanName_def)
  have e: "ending (served ?ow exampleRequest) = Returns"
    "routedPattern (served ?ow exampleRequest) = ''/users/{id}''"
    "reqURLPath exampleRequest = ''/users/42''"
    "reqMethod exampleRequest = ''GET''"
    "reqMethodInSpanName ?ow"
    by (simp_all add: example_defs run_defs)
  from c have c': "chiRoutes ?ow = None \<or> (\<exists>routes. chiRoutes ?ow = Some routes
           \<and> \<not> fst (routes (reqMethod exampleRequest) (reqURLPath exampleRequest)))" by simp
  have h2: "\<not> skipped ?pw exampleRequest" by (simp add: example_defs run_defs)
  have c2: "chiRoutes ?pw = None" by (simp add: Middleware_def config0_def)
  have e2: "ending (served ?pw exampleRequest) = Panics" by (simp add: example_defs run_defs)
  from c2 have c2': "chiRoutes ?pw = None \<or> (\<exists>routes. chiRoutes ?pw = Some routes
           \<and> \<not> fst (routes (reqMethod exampleRequest) (reqURLPath exampleRequest)))" by simp
  have r1: "concat (map routeAttribute (events (ServeHTTP exampleSpanStatus ?ow []
        (ResponseWriter 0) exampleRequest))) = [''/users/{id}'']
      \<and> concat (map spanNaming (events (ServeHTTP exampleSpanStatus ?ow []
        (ResponseWriter 0) exampleRequest))) = ['''', ''GET /users/{id}'']"
    using C9_no_route_table [OF h c', of exampleSpanStatus "[]" "ResponseWriter 0"] e
    by auto
  have r2: "concat (map spanNaming (events (ServeHTTP exampleSpanStatus ?pw []
        (ResponseWriter 0) exampleRequest))) = ['''']"
    using C9_no_route_table [OF h2 c2', of exampleSpanStatus "[]" "ResponseWriter 0"] e2
    by auto
  from h c e(1,3) r1 h2 c2 e2 r2
    C9_no_route_table [OF h c', of exampleSpanStatus "[]" "ResponseWriter 0"]
  show ?thesis by simp
qed

text \<open>
  Claim C9 as stated fails for a handler that panics: the request is not skipped and no route
  table is configured, the routing context holds the pattern \<open>/users/{id}\<close>, and yet no
  route attribute is set on the span and its only name is the empty one given at the start.
\<close>

theorem C9_counterexample:
  "\<not> skipped (Middleware exampleGlobal ''svc'' [] panicking) exampleRequest
   \<and> chiRoutes (Middleware exampleGlobal ''svc'' [] panicking) = None
   \<and> routedPattern (served (Middleware exampleGlobal ''svc'' [] panicking) exampleRequest)
       = ''/users/{id}''
   \<and> SetAttributes (HTTPRoute ''/users/{id}'') \<notin> set (events (ServeHTTP exampleSpanStatus
       (Middleware exampleGlobal ''svc'' [] panicking) [] (ResponseWriter 0) exampleRequest))
   \<and> concat (map routeAttribute (events (ServeHTTP exampleSpanStatus
       (Middleware exampleGlobal ''svc'' [] panicking) [] (ResponseWriter 0) exampleRequest))) = []
   \<and> concat (map spanNaming (events (ServeHTTP exampleSpanStatus
       (Middleware exampleGlobal ''svc'' [] panicking) [] (ResponseWriter 0) exampleRequest)))
       = ['''']"
  by (simp add: ServeHTTP_def Let_def example_defs run_defs)

subsection \<open>Balance of the in-flight recordings\<close>

lemma sum_list_update_int:
  "i < length cs \<Longrightarrow> sum_list (cs[i := c]) = sum_list cs - cs ! i + (c::int)"
  by (induction cs arbitrary: i) (auto split: nat.splits)

lemma interleave_sum:
  fixes f :: "'a \<Rightarrow> int"
  shows "interleave sched ts = Some zs \<Longrightarrow>
    sum_list (map f zs) = sum_list (map (\<lambda>t. sum_list (map f t)) ts)"
proof (induction sched arbitrary: ts zs)
  case Nil
  then have "concat ts = []" and "zs = []" by (auto split: if_splits)
  then show ?case by (induction ts) auto
next
  case (Cons i sched)
  from Cons.prems obtain x rest zs' where i: "i < length ts" and ti: "ts ! i = x # rest"
    and zs: "zs = x # zs'" and rec: "interleave sched (ts[i := rest]) = Some zs'"
    by (auto split: if_splits list.splits)
  have "sum_list (map f zs') = sum_list (map (\<lambda>t. sum_list (map f t)) (ts[i := rest]))"
    by (rule Cons.IH [OF rec])
  also have "\<dots> = sum_list ((map (\<lambda>t. sum_list (map f t)) ts)[i := sum_list (map f rest)])"
    by (simp add: map_update)
  also have "\<dots> = sum_list (map (\<lambda>t. sum_list (map f t)) ts) - sum_list (map f (ts ! i))
      + sum_list (map f rest)"
    using i by (simp add: sum_list_update_int)
  finally show ?case using zs ti by simp
qed

lemma interleave_prefix_nonneg:
  fixes f :: "'a \<Rightarrow> int"
  shows "interleave sched ts = Some zs \<Longrightarrow> length cs = length ts \<Longrightarrow>
    (\<And>i n. i < length ts \<Longrightarrow> 0 \<le> cs ! i + sum_list (map f (take n (ts ! i)))) \<Longrightarrow>
    0 \<le> sum_list cs + sum_list (map f (take n zs))"
proof (induction sched arbitrary: ts zs cs n)
  case Nil
  then have zs: "zs = []" by (auto split: if_splits)
  have "0 \<le> cs ! i" if "i < length cs" for i
    using Nil.prems(3) [of i 0] that Nil.prems(2) by simp
  then have "0 \<le> sum_list cs"
    by (intro sum_list_nonneg) (auto simp: in_set_conv_nth)
  then show ?case using zs by simp
next
  case (Cons i sched)
  from Cons.prems(1) obtain x rest zs' where i: "i < length ts" and ti: "ts ! i = x # rest"
    and zs: "zs = x # zs'" and rec: "interleave sched (ts[i := rest]) = Some zs'"
    by (auto split: if_splits list.splits)
  have nonneg: "0 \<le> cs ! j" if "j < length cs" for j
    using Cons.prems(3) [of j 0] that Cons.prems(2) by simp
  show ?case
  proof (cases n)
    case 0
    have "0 \<le> sum_list cs"
      using nonneg by (intro sum_list_nonneg) (auto simp: in_set_conv_nth)
    then show ?thesis using 0 by simp
  next
    case (Suc m)
    let ?cs = "cs[i := cs ! i + f x]"
    have len: "length ?cs = length (ts[i := rest])" using Cons.prems(2) by simp
    have inv: "0 \<le> ?cs ! j + sum_list (map f (take k ((ts[i := rest]) ! j)))"
      if "j < length (ts[i := rest])" for j k
    proof (cases "j = i")
      case True
      then show ?thesis
        using Cons.prems(3) [of i "Suc k"] i ti Cons.prems(2) by (simp add: add.assoc)
    next
      case False
      then show ?thesis using Cons.prems(3) [of j k] that by simp
    qed
    have "0 \<le> sum_list ?cs + sum_list (map f (take m zs'))"
      by (rule Cons.IH [OF rec len inv])
    moreover have "sum_list ?cs = sum_list cs + f x"
      using i Cons.prems(2) by (simp add: sum_list_update_int)
    ultimately show ?thesis using zs Suc by simp
  qed
qed

text \<open>A list that opens with \<open>+d\<close>, closes with \<open>-d\<close> and is neutral between.\<close>

lemma neutral_take:
  fixes f :: "'a \<Rightarrow> int"
  shows "(\<forall>e \<in> set xs. f e = 0) \<Longrightarrow> sum_list (map f (take n xs)) = 0"
  by (induction xs arbitrary: n) (auto simp: take_Cons split: nat.splits)

lemma bracket_prefix:
  fixes f :: "'a \<Rightarrow> int"
  assumes "f a = d" and "f b = - d" and "0 \<le> d" and "\<forall>e \<in> set mid. f e = 0"
  shows "0 \<le> sum_list (map f (take n (a # mid @ [b])))"
    and "sum_list (map f (a # mid @ [b])) = 0"
proof -
  have mid0: "sum_list (map f mid) = 0"
    using neutral_take [OF assms(4), of "length mid"] by simp
  show "sum_list (map f (a # mid @ [b])) = 0"
    using assms(1,2) mid0 by simp
  show "0 \<le> sum_list (map f (take n (a # mid @ [b])))"
  proof (cases n)
    case 0
    then show ?thesis by simp
  next
    case (Suc m)
    have "sum_list (map f (take m (mid @ [b]))) =
        sum_list (map f (take m mid)) + sum_list (map f (take (m - length mid) [b]))"
      by simp
    moreover have "sum_list (map f (take m mid)) = 0"
      by (rule neutral_take [OF assms(4)])
    moreover have "- d \<le> sum_list (map f (take (m - length mid) [b]))"
      using assms(2,3) by (cases "m - length mid") simp_all
    ultimately show ?thesis using Suc assms(1) by simp
  qed
qed

text \<open>
  The events of any request, skipped or traced, are neutral for the in-flight instrument, or
  open with the recording of \<open>+1\<close> and close with the recording of \<open>-1\<close> for the same
  context and label set, with no in-flight recording between.
\<close>

lemma serve_shape:
  "(filter isInflight (serve st q) = [])
   \<or> (\<exists>ctx props mid. serve st q =
         RecordRequestsInflight ctx props 1 # mid @ [RecordRequestsInflight ctx props (- 1)]
       \<and> filter isInflight mid = [])"
proof -
  obtain ow rrwPool w r where q: "q = (ow, rrwPool, w, r)" by (cases q) auto
  show ?thesis
  proof (cases "skipped ow r")
    case True
    then show ?thesis by (simp add: serve_def q ServeHTTP_skipped)
  next
    case False
    show ?thesis
    proof (cases "disableMeasureInflight ow")
      case True
      then show ?thesis
        by (simp add: serve_def q ServeHTTP_events [OF False] split: outcome.splits)
    next
      case enabled: False
      let ?mid = "[TracerStart (extracted ow r) (fst (preResolve ow r)) (serverName ow)
          (snd (preResolve ow r)) r]
        @ (HandlerServeHTTP (Wrap w) (dispatched ow r) # map Next (calls (served ow r)))
        @ (case ending (served ow r) of
             Panics \<Rightarrow> []
           | Returns \<Rightarrow>
               finalize st ow (dispatched ow r) (reqContext (dispatched ow r)) (labels ow r)
                 (snd (preResolve ow r)) (recorded ow rrwPool w r) (served ow r))
        @ [SpanEnd]"
      have "serve st q = RecordRequestsInflight (extracted ow r) (labels ow r) 1 # ?mid
          @ [RecordRequestsInflight (extracted ow r) (labels ow r) (- 1)]"
        using enabled by (simp add: serve_def q ServeHTTP_events [OF False])
      moreover have "filter isInflight ?mid = []"
        by (simp split: outcome.splits)
      ultimately show ?thesis by blast
    qed
  qed
qed

lemma not_inflight_neutral:
  "\<not> isInflight e \<Longrightarrow> inflightDelta e = 0"
  "\<not> isInflight e \<Longrightarrow> inflightDeltaFor l e = 0"
  by (cases e; simp)+

lemma filter_inflight_neutral:
  assumes "filter isInflight xs = []"
  shows "\<forall>e \<in> set xs. inflightDelta e = 0" and "\<forall>e \<in> set xs. inflightDeltaFor l e = 0"
  using assms by (auto simp: filter_empty_conv not_inflight_neutral)

lemma serve_balanced:
  "0 \<le> sum_list (map inflightDelta (take n (serve st q)))"
  "sum_list (map inflightDelta (serve st q)) = 0"
  "0 \<le> sum_list (map (inflightDeltaFor l) (take n (serve st q)))"
  "sum_list (map (inflightDeltaFor l) (serve st q)) = 0"
proof -
  consider (neutral) "filter isInflight (serve st q) = []"
    | (bracket) ctx props mid where
        "serve st q = RecordRequestsInflight ctx props 1 # mid @ [RecordRequestsInflight ctx props (- 1)]"
        "filter isInflight mid = []"
    using serve_shape [of st q] by blast
  then have "0 \<le> sum_list (map inflightDelta (take n (serve st q)))
    \<and> sum_list (map inflightDelta (serve st q)) = 0
    \<and> 0 \<le> sum_list (map (inflightDeltaFor l) (take n (serve st q)))
    \<and> sum_list (map (inflightDeltaFor l) (serve st q)) = 0"
  proof cases
    case neutral
    have z1: "\<forall>e \<in> set (serve st q). inflightDelta e = 0"
      by (rule filter_inflight_neutral(1) [OF neutral])
    have z2: "\<forall>e \<in> set (serve st q). inflightDeltaFor l e = 0"
      by (rule filter_inflight_neutral(2) [OF neutral])
    show ?thesis
      using neutral_take [OF z1, of n] neutral_take [OF z1, of "length (serve st q)"]
        neutral_take [OF z2, of n] neutral_take [OF z2, of "length (serve st q)"]
      by simp
  next
    case bracket
    have z1: "\<forall>e \<in> set mid. inflightDelta e = 0"
      by (rule filter_inflight_neutral(1) [OF bracket(2)])
    have z2: "\<forall>e \<in> set mid. inflightDeltaFor l e = 0"
      by (rule filter_inflight_neutral(2) [OF bracket(2)])
    have a: "inflightDelta (RecordRequestsInflight ctx props 1) = 1"
      "inflightDelta (RecordRequestsInflight ctx props (- 1)) = - 1" "(0::int) \<le> 1"
      by simp_all
    have b: "inflightDeltaFor l (RecordRequestsInflight ctx props 1) = (if props = l then 1 else 0)"
      "inflightDeltaFor l (RecordRequestsInflight ctx props (- 1)) = - (if props = l then 1 else 0)"
      "(0::int) \<le> (if props = l then 1 else 0)"
      by simp_all
    show ?thesis
      unfolding bracket(1)
      using bracket_prefix(1) [OF a z1, of n] bracket_prefix(2) [OF a z1]
        bracket_prefix(1) [OF b z2, of n] bracket_prefix(2) [OF b z2]
      by blast
  qed
  then show "0 \<le> sum_list (map inflightDelta (take n (serve st q)))"
    "sum_list (map inflightDelta (serve st q)) = 0"
    "0 \<le> sum_list (map (inflightDeltaFor l) (take n (serve st q)))"
    "sum_list (map (inflightDeltaFor l) (serve st q)) = 0"
    by blast+
qed

lemma interleaved_balanced:
  fixes f :: "event \<Rightarrow> int"
  assumes "interleave sched (map (serve st) qs) = Some zs"
    and "\<And>q n. 0 \<le> sum_list (map f (take n (serve st q)))"
    and "\<And>q. sum_list (map f (serve st q)) = 0"
  shows "sum_list (map f zs) = 0" and "0 \<le> sum_list (map f (take n zs))"
proof -
  have "sum_list (map f zs) = sum_list (map (\<lambda>t. sum_list (map f t)) (map (serve st) qs))"
    by (rule interleave_sum [OF assms(1)])
  also have "\<dots> = 0" by (induction qs) (simp_all add: assms(3))
  finally show "sum_list (map f zs) = 0" .
  let ?cs = "replicate (length qs) (0::int)"
  have "0 \<le> sum_list ?cs + sum_list (map f (take n zs))"
  proof (rule interleave_prefix_nonneg [OF assms(1)])
    show "length ?cs = length (map (serve st) qs)" by simp
    show "0 \<le> ?cs ! i + sum_list (map f (take k (map (serve st) qs ! i)))"
      if "i < length (map (serve st) qs)" for i k
      using that assms(2) [of k "qs ! i"] by simp
  qed
  moreover have "sum_list ?cs = 0" by (induction qs) simp_all
  ultimately show "0 \<le> sum_list (map f (take n zs))" by simp
qed

text \<open>
  Claim C4. For every request that is not skipped by the filter, with in-flight measurement
  enabled, the first event is the in-flight recording of \<open>+1\<close> and the last event is the
  in-flight recording of \<open>-1\<close>, registered with \<^verbatim>\<open>defer\<close>; the handler is dispatched
  between the two, nothing else is recorded on the in-flight instrument, and this holds whether
  the handler returns or panics. Hence, for any requests served concurrently (any merge of their
  event lists that keeps each list's order), the in-flight count is back at its starting value
  when all have completed, and is never below it at any point before.
\<close>

theorem C4_inflight_balanced:
  "(\<not> skipped ow r \<and> \<not> disableMeasureInflight ow \<longrightarrow>
      (\<exists>during.
          events (ServeHTTP st ow rrwPool w r) =
            RecordRequestsInflight (extracted ow r) (labels ow r) 1 # during
            @ [RecordRequestsInflight (extracted ow r) (labels ow r) (- 1)]
          \<and> HandlerServeHTTP (Wrap w) (dispatched ow r) \<in> set during
          \<and> filter isInflight during = []))
   \<and> (interleave sched (map (serve st) qs) = Some zs \<longrightarrow>
        inflightCount zs = 0 \<and> 0 \<le> inflightCount (take n zs))"
proof -
  have one: "\<exists>during.
          events (ServeHTTP st ow rrwPool w r) =
            RecordRequestsInflight (extracted ow r) (labels ow r) 1 # during
            @ [RecordRequestsInflight (extracted ow r) (labels ow r) (- 1)]
          \<and> HandlerServeHTTP (Wrap w) (dispatched ow r) \<in> set during
          \<and> filter isInflight during = []"
    if a: "\<not> skipped ow r" and b: "\<not> disableMeasureInflight ow"
  proof -
    let ?mid = "[TracerStart (extracted ow r) (fst (preResolve ow r)) (serverName ow)
          (snd (preResolve ow r)) r]
        @ (HandlerServeHTTP (Wrap w) (dispatched ow r) # map Next (calls (served ow r)))
        @ (case ending (served ow r) of
             Panics \<Rightarrow> []
           | Returns \<Rightarrow>
               finalize st ow (dispatched ow r) (reqContext (dispatched ow r)) (labels ow r)
                 (snd (preResolve ow r)) (recorded ow rrwPool w r) (served ow r))
        @ [SpanEnd]"
    have "events (ServeHTTP st ow rrwPool w r) =
        RecordRequestsInflight (extracted ow r) (labels ow r) 1 # ?mid
        @ [RecordRequestsInflight (extracted ow r) (labels ow r) (- 1)]"
      using b by (simp add: ServeHTTP_events [OF a])
    moreover have "HandlerServeHTTP (Wrap w) (dispatched ow r) \<in> set ?mid" by simp
    moreover have "filter isInflight ?mid = []" by (simp split: outcome.splits)
    ultimately show ?thesis by blast
  qed
  have many: "inflightCount zs = 0 \<and> 0 \<le> inflightCount (take n zs)"
    if i: "interleave sched (map (serve st) qs) = Some zs"
    unfolding inflightCount_def
    using interleaved_balanced(1) [OF i serve_balanced(1) serve_balanced(2)]
      interleaved_balanced(2) [OF i serve_balanced(1) serve_balanced(2)]
    by blast
  from one many show ?thesis by blast
qed

theorem C4_inflight_balanced_witness:
  "\<not> skipped (Middleware exampleGlobal ''svc'' [] panicking) exampleRequest
   \<and> \<not> disableMeasureInflight (Middleware exampleGlobal ''svc'' [] panicking)
   \<and> hd (events (ServeHTTP exampleSpanStatus (Middleware exampleGlobal ''svc'' [] panicking) []
        (ResponseWriter 0) exampleRequest))
      = RecordRequestsInflight []
          \<lparr>Service = ''svc'', ID = ''/users/42'', Method = ''GET'', Code = 0\<rparr> 1
   \<and> last (events (ServeHTTP exampleSpanStatus (Middleware exampleGlobal ''svc'' [] panicking) []
        (ResponseWriter 0) exampleRequest))
      = RecordRequestsInflight []
          \<lparr>Service = ''svc'', ID = ''/users/42'', Method = ''GET'', Code = 0\<rparr> (- 1)
   \<and> interleave [0, 1, 1, 0, 0, 1, 0, 0, 1, 1, 1, 0]
        (map (serve exampleSpanStatus)
          [(Middleware exampleGlobal ''svc'' [] panicking, [], ResponseWriter 0, exampleRequest),
           (Middleware exampleGlobal ''web'' [] panicking, [], ResponseWriter 1, exampleRequest)])
       \<noteq> None
   \<and> inflightCount (the (interleave [0, 1, 1, 0, 0, 1, 0, 0, 1, 1, 1, 0]
        (map (serve exampleSpanStatus)
          [(Middleware exampleGlobal ''svc'' [] panicking, [], ResponseWriter 0, exampleRequest),
           (Middleware exampleGlobal ''web'' [] panicking, [], ResponseWriter 1, exampleRequest)])))
       = 0
   \<and> 0 \<le> inflightCount (take 2 (the (interleave [0, 1, 1, 0, 0, 1, 0, 0, 1, 1, 1, 0]
        (map (serve exampleSpanStatus)
          [(Middleware exampleGlobal ''svc'' [] panicking, [], ResponseWriter 0, exampleRequest),
           (Middleware exampleGlobal ''web'' [] panicking, [], ResponseWriter 1, exampleRequest)]))))"
proof -
  let ?ow = "Middleware exampleGlobal ''svc'' [] panicking"
  let ?qs = "[(?ow, [], ResponseWriter 0, exampleRequest),
     (Middleware exampleGlobal ''web'' [] panicking, [], ResponseWriter 1, exampleRequest)]"
  let ?sched = "[0, 1, 1, 0, 0, 1, 0, 0, 1, 1, 1, 0] :: nat list"
  have h: "\<not> skipped ?ow exampleRequest" by (simp add: example_defs run_defs)
  have d: "\<not> disableMeasureInflight ?ow" by (simp add: Middleware_def config0_def)
  have v: "extracted ?ow exampleRequest = []"
    "labels ?ow exampleRequest =
       \<lparr>Service = ''svc'', ID = ''/users/42'', Method = ''GET'', Code = 0\<rparr>"
    by (simp_all add: example_defs run_defs)
  have "interleave ?sched (map (serve exampleSpanStatus) ?qs) \<noteq> None"
    by (simp add: serve_def ServeHTTP_def Let_def example_defs run_defs)
  then obtain zs where zs: "interleave ?sched (map (serve exampleSpanStatus) ?qs) = Some zs"
    by blast
  show ?thesis
    using h d zs
      C4_inflight_balanced [of ?ow exampleRequest exampleSpanStatus "[]" "ResponseWriter 0"
        ?sched ?qs zs 2]
    by (auto simp: v)
qed

text \<open>
  Claim C10. For every request that is not skipped by the filter, with in-flight measurement
  enabled, the in-flight instrument is recorded exactly twice, for \<open>+1\<close> and for \<open>-1\<close>, both
  with the label set built before dispatch, whose status code is 0: the deferred call holds the
  properties as they were when \<^verbatim>\<open>defer\<close> ran. The recorded response status is assigned
  to the properties afterwards and shows only in the duration and size recordings. Hence the
  in-flight counter of every single label set is back at its starting value after a request,
  and after any requests served concurrently, and never below it before.
\<close>

theorem C10_inflight_same_labels:
  "(\<not> skipped ow r \<and> \<not> disableMeasureInflight ow \<longrightarrow>
      concat (map inflightRecord (events (ServeHTTP st ow rrwPool w r))) =
        [(labels ow r, 1), (labels ow r, - 1)]
      \<and> Code (labels ow r) = 0
      \<and> concat (map laterRecord (events (ServeHTTP st ow rrwPool w r))) =
          (case ending (served ow r) of
             Panics \<Rightarrow> []
           | Returns \<Rightarrow> replicate (if disableMeasureSize ow then 1 else 2)
               ((labels ow r)\<lparr>Code := status (recorded ow rrwPool w r)\<rparr>))
      \<and> inflightCountFor l (events (ServeHTTP st ow rrwPool w r)) = 0)
   \<and> (interleave sched (map (serve st) qs) = Some zs \<longrightarrow>
        inflightCountFor l zs = 0 \<and> 0 \<le> inflightCountFor l (take n zs))"
proof -
  have code: "Code (labels ow r) = 0"
    by (simp add: labels_def initialProps_def Let_def)
  have single: "inflightCountFor l (events (ServeHTTP st ow rrwPool w r)) = 0"
    using serve_balanced(4) [of l st "(ow, rrwPool, w, r)"]
    by (simp add: inflightCountFor_def serve_def)
  have one: "concat (map inflightRecord (events (ServeHTTP st ow rrwPool w r))) =
        [(labels ow r, 1), (labels ow r, - 1)]
      \<and> concat (map laterRecord (events (ServeHTTP st ow rrwPool w r))) =
          (case ending (served ow r) of
             Panics \<Rightarrow> []
           | Returns \<Rightarrow> replicate (if disableMeasureSize ow then 1 else 2)
               ((labels ow r)\<lparr>Code := status (recorded ow rrwPool w r)\<rparr>))"
    if a: "\<not> skipped ow r" and b: "\<not> disableMeasureInflight ow"
    using b by (simp add: events_inflightRecord [OF a] events_laterRecord [OF a])
  have many: "inflightCountFor l zs = 0 \<and> 0 \<le> inflightCountFor l (take n zs)"
    if i: "interleave sched (map (serve st) qs) = Some zs"
    unfolding inflightCountFor_def
    using interleaved_balanced(1) [OF i serve_balanced(3) serve_balanced(4)]
      interleaved_balanced(2) [OF i serve_balanced(3) serve_balanced(4)]
    by blast
  from code single one many show ?thesis by blast
qed

theorem C10_inflight_same_labels_witness:
  "\<not> skipped (Middleware exampleGlobal ''svc'' [] twoWrites) exampleRequest
   \<and> \<not> disableMeasureInflight (Middleware exampleGlobal ''svc'' [] twoWrites)
   \<and> concat (map inflightRecord (events (ServeHTTP exampleSpanStatus
        (Middleware exampleGlobal ''svc'' [] twoWrites) [] (ResponseWriter 0) exampleRequest)))
      = [(\<lparr>Service = ''svc'', ID = ''/users/42'', Method = ''GET'', Code = 0\<rparr>, 1),
         (\<lparr>Service = ''svc'', ID = ''/users/42'', Method = ''GET'', Code = 0\<rparr>, - 1)]
   \<and> concat (map laterRecord (events (ServeHTTP exampleSpanStatus
        (Middleware exampleGlobal ''svc'' [] twoWrites) [] (ResponseWriter 0) exampleRequest)))
      = [\<lparr>Service = ''svc'', ID = ''/users/42'', Method = ''GET'', Code = 200\<rparr>,
         \<lparr>Service = ''svc'', ID = ''/users/42'', Method = ''GET'', Code = 200\<rparr>]
   \<and> interleave [1, 0, 0, 1, 0, 1, 0, 1, 0, 0, 1, 1]
        (map (serve exampleSpanStatus)
          [(Middleware exampleGlobal ''svc'' [] panicking, [], ResponseWriter 0, exampleRequest),
           (Middleware exampleGlobal ''web'' [] panicking, [], ResponseWriter 1, exampleRequest)])
       \<noteq> None
   \<and> inflightCountFor \<lparr>Service = ''svc'', ID = ''/users/42'', Method = ''GET'', Code = 0\<rparr>
        (the (interleave [1, 0, 0, 1, 0, 1, 0, 1, 0, 0, 1, 1]
        (map (serve exampleSpanStatus)
          [(Middleware exampleGlobal ''svc'' [] panicking, [], ResponseWriter 0, exampleRequest),
           (Middleware exampleGlobal ''web'' [] panicking, [], ResponseWriter 1, exampleRequest)])))
       = 0"
proof -
  let ?ow = "Middleware exampleGlobal ''svc'' [] twoWrites"
  let ?qs = "[(Middleware exampleGlobal ''svc'' [] panicking, [], ResponseWriter 0, exampleRequest),
     (Middleware exampleGlobal ''web'' [] panicking, [], ResponseWriter 1, exampleRequest)]"
  let ?sched = "[1, 0, 0, 1, 0, 1, 0, 1, 0, 0, 1, 1] :: nat list"
  let ?l = "\<lparr>Service = ''svc'', ID = ''/users/42'', Method = ''GET'', Code = 0\<rparr>"
  have h: "\<not> skipped ?ow exampleRequest" by (simp add: example_defs run_defs)
  have d: "\<not> disableMeasureInflight ?ow" "\<not> disableMeasureSize ?ow"
    by (simp_all add: Middleware_def config0_def)
  have v: "labels ?ow exampleRequest = ?l"
    "ending (served ?ow exampleRequest) = Returns"
    "status (recorded ?ow [] (ResponseWriter 0) exampleRequest) = 200"
    by (simp_all add: example_defs run_defs)
  have "interleave ?sched (map (serve exampleSpanStatus) ?qs) \<noteq> None"
    by (simp add: serve_def ServeHTTP_def Let_def example_defs run_defs)
  then obtain zs where zs: "interleave ?sched (map (serve exampleSpanStatus) ?qs) = Some zs"
    by blast
  show ?thesis
    using h d zs
      C10_inflight_same_labels [of ?ow exampleRequest exampleSpanStatus "[]" "ResponseWriter 0"
        ?l ?sched ?qs zs 2]
    by (auto simp: v numeral_2_eq_2)
qed

end
